theory Spec2Isabelle
  imports Complex_Main "HOL-Library.Log_Nat"
begin

section \<open>Annotation matcher: matching manual waggle annotations with detections\<close>

text \<open>
  A shallow embedding of \<^verbatim>\<open>annotation_matcher.py\<close>. Points are pairs of integers, as the
  source annotates them (\<^verbatim>\<open>tuple[int, int]\<close>); a \<^verbatim>\<open>datetime\<close> is the number of microseconds
  since the first moment of year 1 and a \<^verbatim>\<open>timedelta\<close> a number of microseconds, both
  integers; a timestamp of a data frame column counts the same microseconds, as a rational
  number, since such a column resolves nanoseconds; a float is the rational number it
  denotes; a data frame is the list of its rows; an exception is a value of type \<open>error\<close>
  on the left of a sum.
\<close>

datatype error =
    ZeroDivisionError
  | OverflowError
  | TypeError
  | AssertionError
  | PyException string
  | InsufficientMarkers
  | MarkerCountMismatch
  | DegenerateMarkers

type_synonym point = "int \<times> int"

subsection \<open>Timestamp strings\<close>

text \<open>Python's \<^verbatim>\<open>str.split(sep)\<close> for a separator of one character.\<close>

fun split_on :: "char \<Rightarrow> string \<Rightarrow> string list" where
  "split_on sep [] = [[]]"
| "split_on sep (c # cs) =
     (if c = sep then [] # split_on sep cs
      else (case split_on sep cs of
              s # ss \<Rightarrow> (c # s) # ss
            | [] \<Rightarrow> [[c]]))"

text \<open>
  \<^verbatim>\<open>timestamp.count(".")\<close> is \<open>count_list timestamp CHR ''.''\<close>. The two indexed reads
  \<^verbatim>\<open>sections[0]\<close> and \<^verbatim>\<open>sections[1]\<close> happen only when there are at least two dots, hence
  at least three sections (lemma \<open>length_split_on\<close>): they are always in range.
\<close>

definition truncate_higher_precision_timestamp :: "string \<Rightarrow> string" where
  "truncate_higher_precision_timestamp timestamp =
     (let precision_section_count = count_list timestamp CHR ''.''
      in if precision_section_count \<ge> 2
         then (let sections = split_on CHR ''.'' timestamp
               in sections ! 0 @ ''.'' @ sections ! 1 @ ''Z'')
         else timestamp)"

subsection \<open>Coordinates\<close>

definition HD_CAM_RESOLUTION :: "int \<times> int" where
  "HD_CAM_RESOLUTION = (3520, 4608)"

definition HD_CAM_FPS :: int where
  "HD_CAM_FPS = 15"

fun unrotate :: "point \<Rightarrow> point" where
  "unrotate (rotated_x, rotated_y) = (rotated_y, snd HD_CAM_RESOLUTION - rotated_x)"

text \<open>
  The forward rotation is not a function of the source. It is written here as the
  specification words it, \<open>(x, y) \<mapsto> (FRAME_HEIGHT - y, x)\<close>, to be compared with
  \<open>unrotate\<close>.
\<close>

fun spec_forward_rotation :: "point \<Rightarrow> point" where
  "spec_forward_rotation (x, y) = (snd HD_CAM_RESOLUTION - y, x)"

fun fix_padding_error :: "point \<Rightarrow> point" where
  "fix_padding_error (x, y) = (x + 125, y + 125)"

fun is_adjacent :: "point \<Rightarrow> point \<Rightarrow> int \<Rightarrow> bool" where
  "is_adjacent (x1, y1) (x2, y2) coordinate_tolerance =
     (\<bar>x1 - x2\<bar> \<le> coordinate_tolerance \<and> \<bar>y1 - y2\<bar> \<le> coordinate_tolerance)"

subsection \<open>Floats\<close>

text \<open>
  A Python float is an IEEE 754 double: zero, or \<open>m * 2 ^ e\<close> with an integer \<open>m\<close> below
  \<open>2 ^ 53\<close> in magnitude and \<open>e\<close> not below \<open>-1074\<close>. An operation gives the double
  nearest to the exact result, a tie going to the even \<open>m\<close>.
\<close>

definition pow2 :: "int \<Rightarrow> rat" where
  "pow2 e = (if 0 \<le> e then 2 ^ nat e else 1 / 2 ^ nat (- e))"

definition round_half_even :: "rat \<Rightarrow> int" where
  "round_half_even q =
     (let n = \<lfloor>q\<rfloor>; r = q - of_int n
      in if r < 1 / 2 then n
         else if 1 / 2 < r then n + 1
         else if even n then n else n + 1)"

text \<open>
  For a positive rational \<open>a = p / d\<close> in lowest terms the integer \<open>k\<close> with
  \<open>2 ^ k \<le> a < 2 ^ (k + 1)\<close> is the difference of the bit lengths of \<open>p\<close> and \<open>d\<close>, or
  one less.
\<close>

definition binary_exponent :: "rat \<Rightarrow> int" where
  "binary_exponent a =
     (let k = bitlen (fst (quotient_of a)) - bitlen (snd (quotient_of a))
      in if pow2 k \<le> a then k else k - 1)"

definition round_to_double :: "rat \<Rightarrow> rat" where
  "round_to_double q =
     (if q = 0 then 0
      else (let a = \<bar>q\<bar>;
                e = max (binary_exponent a - 52) (- 1074);
                m = round_half_even (a / pow2 e)
            in sgn q * of_int m * pow2 e))"

text \<open>
  \<^verbatim>\<open>a / b\<close> on two Python integers: the double nearest to the exact quotient;
  \<^verbatim>\<open>ZeroDivisionError\<close> for a zero divisor, \<^verbatim>\<open>OverflowError\<close> when the quotient is too large
  for a double.
\<close>

definition true_divide :: "int \<Rightarrow> int \<Rightarrow> error + rat" where
  "true_divide a b =
     (if b = 0 then Inl ZeroDivisionError
      else (let x = round_to_double (of_int a / of_int b)
            in if pow2 1024 \<le> \<bar>x\<bar> then Inl OverflowError else Inr x))"

subsection \<open>Moments, durations and the temporal filter\<close>

text \<open>
  \<^verbatim>\<open>timedelta(seconds=x)\<close> for a float \<open>x\<close>, as \<^verbatim>\<open>datetime\<close> computes it: the integral part
  of \<open>x\<close> gives whole microseconds exactly; the fractional part is multiplied by \<open>1e6\<close> in
  floating point and the sum is rounded to the nearest microsecond, a tie going to the
  even one.
\<close>

definition truncate_toward_zero :: "rat \<Rightarrow> int" where
  "truncate_toward_zero x = (if 0 \<le> x then \<lfloor>x\<rfloor> else - \<lfloor>- x\<rfloor>)"

definition microseconds_of_seconds :: "rat \<Rightarrow> int" where
  "microseconds_of_seconds x =
     (let intpart = truncate_toward_zero x;
          fracpart = x - of_int intpart;
          sum = intpart * 1000000
      in if fracpart = 0 then sum
         else round_half_even (of_int sum + round_to_double (1000000 * fracpart)))"

text \<open>A \<^verbatim>\<open>timedelta\<close> has at most 999999999 days in magnitude.\<close>

definition timedelta_seconds :: "rat \<Rightarrow> error + int" where
  "timedelta_seconds x =
     (let us = microseconds_of_seconds x
      in if - 999999999 \<le> us div 86400000000 \<and> us div 86400000000 \<le> 999999999
         then Inr us else Inl OverflowError)"

text \<open>
  A \<^verbatim>\<open>datetime\<close> lies in the years 1 to 9999, which have 3652059 days. Adding or
  subtracting a \<^verbatim>\<open>timedelta\<close> raises \<^verbatim>\<open>OverflowError\<close> when the result does not.
\<close>

definition MAX_DATETIME :: int where
  "MAX_DATETIME = 3652059 * 86400000000 - 1"

definition in_datetime_range :: "int \<Rightarrow> bool" where
  "in_datetime_range t = (0 \<le> t \<and> t \<le> MAX_DATETIME)"

definition datetime_add :: "int \<Rightarrow> int \<Rightarrow> error + int" where
  "datetime_add t td = (if in_datetime_range (t + td) then Inr (t + td) else Inl OverflowError)"

text \<open>
  A detection of the WDD: the fields the filters read. (The duration and the angle of a
  detection are only copied to the output.)
\<close>

record candidate =
  waggle_id :: string
  timestamp_begin :: rat
  roi_center :: point

text \<open>
  The column \<^verbatim>\<open>timestamp_begin\<close> holds the parsed timestamps; comparing it with a
  \<^verbatim>\<open>datetime\<close> compares the moments. Each of the five steps before the comparison can
  raise, and its exception leaves the function.
\<close>

definition filtered_by_timestamp ::
  "candidate list \<Rightarrow> int \<Rightarrow> int \<Rightarrow> int \<Rightarrow> int \<Rightarrow> error + candidate list" where
  "filtered_by_timestamp candidates video_starttime delta start_frame video_fps =
     (case true_divide start_frame video_fps of
        Inl e \<Rightarrow> Inl e
      | Inr seconds \<Rightarrow>
     (case timedelta_seconds seconds of
        Inl e \<Rightarrow> Inl e
      | Inr time_elapsed_until_waggle \<Rightarrow>
     (case datetime_add video_starttime time_elapsed_until_waggle of
        Inl e \<Rightarrow> Inl e
      | Inr waggle_timestamp \<Rightarrow>
     (case datetime_add waggle_timestamp (- delta) of
        Inl e \<Rightarrow> Inl e
      | Inr start_time \<Rightarrow>
     (case datetime_add waggle_timestamp delta of
        Inl e \<Rightarrow> Inl e
      | Inr end_time \<Rightarrow>
          Inr (filter (\<lambda>c. timestamp_begin c \<ge> of_int start_time
                          \<and> timestamp_begin c \<le> of_int end_time)
                 candidates))))))"

text \<open>
  The microseconds that the filter takes for the time elapsed until the waggle, when
  nothing overflows.
\<close>

definition elapsed_microseconds :: "int \<Rightarrow> int \<Rightarrow> int" where
  "elapsed_microseconds start_frame video_fps =
     microseconds_of_seconds (round_to_double (of_int start_frame / of_int video_fps))"

text \<open>
  The window of the specification, in exact arithmetic and in microseconds:
  \<open>T0 + (o + f) / r - d \<le> t \<le> T0 + (o + f) / r + d\<close>.
\<close>

definition spec_time_window :: "int \<Rightarrow> int \<Rightarrow> int \<Rightarrow> int \<Rightarrow> int \<Rightarrow> rat \<Rightarrow> bool" where
  "spec_time_window T0 off f r d t =
     (of_int T0 + 1000000 * (of_int (off + f) / of_int r) - of_int d \<le> t
      \<and> t \<le> of_int T0 + 1000000 * (of_int (off + f) / of_int r) + of_int d)"

subsection \<open>Labels\<close>

datatype TagStatus = tagged | untagged

fun TagStatus_name :: "TagStatus \<Rightarrow> string" where
  "TagStatus_name tagged = ''tagged''"
| "TagStatus_name untagged = ''untagged''"

text \<open>
  A row of \<^verbatim>\<open>data.csv\<close>. Each label column has the nullable dtype \<^verbatim>\<open>"string"\<close>: an empty
  cell is \<^verbatim>\<open>pd.NA\<close>, here \<open>None\<close>.
\<close>

record label_record =
  csv_waggle_id :: string
  category_label :: "string option"
  corrected_category_label :: "string option"
  dance_type :: "string option"
  corrected_dance_type :: "string option"

text \<open>
  \<^verbatim>\<open>pd.NA == "tagged"\<close> is \<^verbatim>\<open>pd.NA\<close>, and \<^verbatim>\<open>pd.NA and ...\<close> asks for its truth value, which
  raises \<^verbatim>\<open>TypeError\<close>: an original label that is missing makes the test raise. A missing
  correction is guarded by \<^verbatim>\<open>pd.isna\<close> and never compared.
\<close>

definition is_tagged :: "label_record \<Rightarrow> error + bool" where
  "is_tagged df =
     (case category_label df of
        None \<Rightarrow> Inl TypeError
      | Some label \<Rightarrow>
          Inr ((label = TagStatus_name tagged \<and> corrected_category_label df = None)
               \<or> (corrected_category_label df \<noteq> None
                   \<and> corrected_category_label df = Some (TagStatus_name tagged))))"

definition is_waggle :: "label_record \<Rightarrow> error + bool" where
  "is_waggle df =
     (case dance_type df of
        None \<Rightarrow> Inl TypeError
      | Some label \<Rightarrow>
          Inr ((label = ''waggle'' \<and> corrected_dance_type df = None)
               \<or> (corrected_dance_type df \<noteq> None
                   \<and> corrected_dance_type df = Some ''waggle'')))"


text \<open>
  The \<^verbatim>\<open>elif is_tagged(csv_row) and is_waggle(csv_row)\<close> arm and the \<^verbatim>\<open>else\<close> arm of the
  label loop, on the single row found. The \<^verbatim>\<open>else\<close> arm prints both tests, so
  \<^verbatim>\<open>is_waggle\<close> is evaluated (and may raise) also when \<^verbatim>\<open>is_tagged\<close> is false.
\<close>

definition tagged_and_waggle :: "label_record \<Rightarrow> error + bool" where
  "tagged_and_waggle df =
     (case is_tagged df of
        Inl e \<Rightarrow> Inl e
      | Inr t \<Rightarrow>
          (case is_waggle df of
             Inl e \<Rightarrow> Inl e
           | Inr w \<Rightarrow> Inr (t \<and> w)))"

text \<open>
  The label loop of \<^verbatim>\<open>main\<close>; \<open>acc\<close> is the list
  \<^verbatim>\<open>candidates_after_tagged_waggle_check\<close>. The rows of the table with the candidate's
  identifier are selected; more than one fails the assertion, none skips the candidate.
\<close>

fun tagged_waggle_check ::
  "label_record list \<Rightarrow> candidate list \<Rightarrow> candidate list \<Rightarrow> error + candidate list" where
  "tagged_waggle_check csv_df [] acc = Inr acc"
| "tagged_waggle_check csv_df (candidate # rest) acc =
     (case filter (\<lambda>r. csv_waggle_id r = waggle_id candidate) csv_df of
        [] \<Rightarrow> tagged_waggle_check csv_df rest acc
      | [csv_row] \<Rightarrow>
          (case tagged_and_waggle csv_row of
             Inl e \<Rightarrow> Inl e
           | Inr keep \<Rightarrow>
               tagged_waggle_check csv_df rest (if keep then acc @ [candidate] else acc))
      | _ # _ # _ \<Rightarrow> Inl AssertionError)"

subsection \<open>Frame synchronisation\<close>

text \<open>
  A video is the list of its frames, or \<open>None\<close> when it cannot be opened. Frames of one
  recording have one shape, and \<^verbatim>\<open>(frame == target).all()\<close> is then equality of the
  pixel arrays: equality of the frame type.
\<close>

type_synonym 'f video = "'f list option"

definition get_starting_frame :: "'f video \<Rightarrow> error + 'f" where
  "get_starting_frame video =
     (case video of
        None \<Rightarrow> Inl (PyException ''Unable to open'')
      | Some [] \<Rightarrow> Inl (PyException ''No frame in'')
      | Some (frame # _) \<Rightarrow> Inr frame)"

text \<open>
  The \<^verbatim>\<open>while\<close> loop: \<open>Some frame_index\<close> when it leaves with \<^verbatim>\<open>match_found\<close>, \<open>None\<close> when
  the frames run out.
\<close>

fun scan_frames :: "'f list \<Rightarrow> 'f \<Rightarrow> nat \<Rightarrow> nat option" where
  "scan_frames [] cut_hd_video_starting_frame frame_index = None"
| "scan_frames (frame # rest) cut_hd_video_starting_frame frame_index =
     (if frame = cut_hd_video_starting_frame then Some frame_index
      else scan_frames rest cut_hd_video_starting_frame (frame_index + 1))"

definition get_first_matching_frame_index :: "'f video \<Rightarrow> 'f video \<Rightarrow> error + nat" where
  "get_first_matching_frame_index original_video cut_video =
     (case get_starting_frame cut_video of
        Inl e \<Rightarrow> Inl e
      | Inr cut_hd_video_starting_frame \<Rightarrow>
          (case original_video of
             None \<Rightarrow> Inl (PyException ''Unable to open'')
           | Some frames \<Rightarrow>
               (case scan_frames frames cut_hd_video_starting_frame 0 of
                  Some frame_index \<Rightarrow> Inr frame_index
                | None \<Rightarrow> Inl (PyException ''Unable to find matching frame''))))"

subsection \<open>Markers and the spatial filter\<close>

record marker_row =
  row_timestamp :: rat
  row_x :: int
  row_y :: int

text \<open>
  The \<^verbatim>\<open>for\<close> loop over the sorted marker timestamps; \<open>timestamp_to_show\<close> starts as
  \<open>None\<close> and is overwritten by every timestamp that is not after the detection.
\<close>

fun scan_marker_timestamps :: "rat list \<Rightarrow> rat \<Rightarrow> rat option \<Rightarrow> rat option" where
  "scan_marker_timestamps [] detection_timestamp timestamp_to_show = timestamp_to_show"
| "scan_marker_timestamps (marker_timestamp # rest) detection_timestamp timestamp_to_show =
     scan_marker_timestamps rest detection_timestamp
       (if marker_timestamp \<le> detection_timestamp then Some marker_timestamp
        else timestamp_to_show)"

definition get_marker_coordinates_by_timestamp ::
  "rat \<Rightarrow> marker_row list \<Rightarrow> point list option" where
  "get_marker_coordinates_by_timestamp detection_timestamp df_markers =
     (let marker_timestamps = sort (remdups (map row_timestamp df_markers))
      in case scan_marker_timestamps marker_timestamps detection_timestamp None of
           None \<Rightarrow> None
         | Some timestamp_to_show \<Rightarrow>
             Some (map (\<lambda>row. (row_x row, row_y row))
                     (filter (\<lambda>row. row_timestamp row = timestamp_to_show) df_markers)))"

text \<open>
  \<^verbatim>\<open>coordinate_transformer.py\<close> is not among the sources. A transformer constructor takes
  the two marker sets as the lookup returns them (\<open>None\<close> when there is none) and either
  raises or gives the map \<^verbatim>\<open>transform_coordinates\<close>. The functions of the source take the
  constructor as their first argument.
\<close>

type_synonym transformer_constructor =
  "point list option \<Rightarrow> point list option \<Rightarrow> error + (point \<Rightarrow> point)"

definition cross :: "point \<Rightarrow> point \<Rightarrow> point \<Rightarrow> int" where
  "cross p q r = (fst q - fst p) * (snd r - snd p) - (snd q - snd p) * (fst r - fst p)"

definition collinear :: "point list \<Rightarrow> bool" where
  "collinear ps = list_all (\<lambda>p. list_all (\<lambda>q. list_all (\<lambda>r. cross p q r = 0) ps) ps) ps"

text \<open>
  Modelled from the spec: the class \<^verbatim>\<open>CoordinateTransformer\<close> of the missing
  \<^verbatim>\<open>coordinate_transformer.py\<close>. Its construction fails with \<open>MarkerCountMismatch\<close> if the
  two lists differ in length, with \<open>InsufficientMarkers\<close> if fewer than three pairs are
  supplied, and with \<open>DegenerateMarkers\<close> if the markers of a list are collinear or
  coincide; otherwise it gives the fitted map. The least-squares fit itself is the
  parameter \<open>fit\<close>. A marker set that is missing supplies no pair at all, which is
  fewer than three.
\<close>

definition CoordinateTransformer ::
  "(point list \<Rightarrow> point list \<Rightarrow> point \<Rightarrow> point) \<Rightarrow> transformer_constructor" where
  "CoordinateTransformer fit src_markers dst_markers =
     (case src_markers of
        None \<Rightarrow> Inl InsufficientMarkers
      | Some src \<Rightarrow>
          (case dst_markers of
             None \<Rightarrow> Inl InsufficientMarkers
           | Some dst \<Rightarrow>
               if length src \<noteq> length dst then Inl MarkerCountMismatch
               else if length src < 3 then Inl InsufficientMarkers
               else if collinear src \<or> collinear dst then Inl DegenerateMarkers
               else Inr (fit src dst)))"

text \<open>A row of the table of manual annotations: the fields the matching reads.\<close>

record manual_row =
  waggle_index :: int
  waggle_start_frames :: int
  waggle_start_positions_x :: int
  waggle_start_positions_y :: int

text \<open>
  The detection's timestamp passes through \<^verbatim>\<open>isoformat\<close> and \<^verbatim>\<open>fromisoformat\<close>, which keep
  its whole microseconds.
\<close>

definition is_matching_coordinates ::
  "transformer_constructor \<Rightarrow> candidate \<Rightarrow> manual_row \<Rightarrow> marker_row list \<Rightarrow> marker_row list
     \<Rightarrow> int \<Rightarrow> bool \<Rightarrow> bool \<Rightarrow> error + bool" where
  "is_matching_coordinates new_transformer automatically_annotated_data manually_annotated_data
       df_markers_hd df_markers_wdd coordinate_tolerance fix_padding_flag undo_rotation_flag =
     (let detection_timestamp = of_int \<lfloor>timestamp_begin automatically_annotated_data\<rfloor>;
          wdd_markers = get_marker_coordinates_by_timestamp detection_timestamp df_markers_wdd;
          hd_markers = get_marker_coordinates_by_timestamp detection_timestamp df_markers_hd
      in case new_transformer hd_markers wdd_markers of
           Inl e \<Rightarrow> Inl e
         | Inr transform_coordinates \<Rightarrow>
             (let p_hd = (waggle_start_positions_x manually_annotated_data,
                          waggle_start_positions_y manually_annotated_data);
                  p_hd' = (if undo_rotation_flag then unrotate p_hd else p_hd);
                  p_wdd = transform_coordinates p_hd';
                  p = roi_center automatically_annotated_data;
                  p' = (if fix_padding_flag then fix_padding_error p else p)
              in Inr (is_adjacent p_wdd p' coordinate_tolerance)))"

subsection \<open>The orchestrator\<close>

record args =
  time_tolerance :: int
  coordinate_tolerance :: int
  fix_padding_flag :: bool
  undo_rotation :: bool

text \<open>
  What \<^verbatim>\<open>main\<close> has loaded for one cut video: the two videos, the detections of the day,
  the start time and frame rate of the original video, the label table and the two
  marker tables.
\<close>

record 'f video_data =
  original_video :: "'f video"
  cut_video :: "'f video"
  all_candidates :: "candidate list"
  video_timestamp :: int
  video_fps :: int
  csv_df :: "label_record list"
  df_markers_wdd :: "marker_row list"
  df_markers_hd :: "marker_row list"

text \<open>
  The list comprehension \<^verbatim>\<open>candidates_after_coordinate_check\<close>. \<^verbatim>\<open>main\<close> calls
  \<^verbatim>\<open>is_matching_coordinates\<close> with six keyword arguments; \<^verbatim>\<open>undo_rotation\<close> is not among
  them, so the parameter has its default \<^verbatim>\<open>False\<close>. An exception of a call leaves the
  comprehension.
\<close>

fun coordinate_check ::
  "transformer_constructor \<Rightarrow> args \<Rightarrow> manual_row \<Rightarrow> marker_row list \<Rightarrow> marker_row list
     \<Rightarrow> candidate list \<Rightarrow> error + candidate list" where
  "coordinate_check new_transformer a manually_annotated_row markers_hd markers_wdd [] = Inr []"
| "coordinate_check new_transformer a manually_annotated_row markers_hd markers_wdd
       (candidate # rest) =
     (case is_matching_coordinates new_transformer candidate manually_annotated_row
             markers_hd markers_wdd (coordinate_tolerance a) (fix_padding_flag a) False of
        Inl e \<Rightarrow> Inl e
      | Inr matching \<Rightarrow>
          (case coordinate_check new_transformer a manually_annotated_row markers_hd markers_wdd
                  rest of
             Inl e \<Rightarrow> Inl e
           | Inr kept \<Rightarrow> Inr (if matching then candidate # kept else kept)))"

text \<open>
  The loop over the manually annotated rows of one video; \<open>results\<close> is the list
  \<^verbatim>\<open>results[original_video_name]\<close>, a match record being the row and its candidates.
  Only the frame synchronisation stands in a \<^verbatim>\<open>try\<close>; an exception anywhere else leaves
  \<^verbatim>\<open>main\<close>.
\<close>

type_synonym match_record = "manual_row \<times> candidate list"

fun main_rows ::
  "transformer_constructor \<Rightarrow> args \<Rightarrow> 'f video_data \<Rightarrow> manual_row list \<Rightarrow> match_record list
     \<Rightarrow> error + match_record list" where
  "main_rows new_transformer a v [] results = Inr results"
| "main_rows new_transformer a v (manually_annotated_row # rest) results =
     (case get_first_matching_frame_index (original_video v) (cut_video v) of
        Inl e \<Rightarrow> main_rows new_transformer a v rest results
      | Inr frame_offset \<Rightarrow>
          (case filtered_by_timestamp (all_candidates v) (video_timestamp v) (time_tolerance a)
                  (int frame_offset + waggle_start_frames manually_annotated_row)
                  (video_fps v) of
             Inl e \<Rightarrow> Inl e
           | Inr candidates_after_timestamp_check \<Rightarrow>
               if length candidates_after_timestamp_check = 0
               then main_rows new_transformer a v rest results
               else
                 (case tagged_waggle_check (csv_df v) candidates_after_timestamp_check [] of
                    Inl e \<Rightarrow> Inl e
                  | Inr candidates_after_tagged_waggle_check \<Rightarrow>
                      (case coordinate_check new_transformer a manually_annotated_row
                              (df_markers_hd v) (df_markers_wdd v)
                              candidates_after_tagged_waggle_check of
                         Inl e \<Rightarrow> Inl e
                       | Inr candidates_after_coordinate_check \<Rightarrow>
                           main_rows new_transformer a v rest
                             (results @ [(manually_annotated_row,
                                          candidates_after_coordinate_check)])))))"

text \<open>A Python \<^verbatim>\<open>dict\<close> as an association list in insertion order; \<^verbatim>\<open>d[k] = v\<close>.\<close>

fun dict_set :: "('k \<times> 'v) list \<Rightarrow> 'k \<Rightarrow> 'v \<Rightarrow> ('k \<times> 'v) list" where
  "dict_set [] k v = [(k, v)]"
| "dict_set ((k', v') # kvs) k v =
     (if k' = k then (k, v) # kvs else (k', v') # dict_set kvs k v)"

text \<open>
  The loop over the videos. It ends with the dictionary \<open>results\<close>; an exception
  leaves it before the output file is opened.
\<close>

fun main_videos ::
  "transformer_constructor \<Rightarrow> args \<Rightarrow> (string \<times> 'f video_data \<times> manual_row list) list
     \<Rightarrow> (string \<times> match_record list) list \<Rightarrow> error + (string \<times> match_record list) list" where
  "main_videos new_transformer a [] results = Inr results"
| "main_videos new_transformer a ((original_video_name, v, manually_annotated_rows) # rest)
       results =
     (case main_rows new_transformer a v manually_annotated_rows [] of
        Inl e \<Rightarrow> Inl e
      | Inr matches \<Rightarrow>
          main_videos new_transformer a rest (dict_set results original_video_name matches))"

definition main ::
  "transformer_constructor \<Rightarrow> args \<Rightarrow> (string \<times> 'f video_data \<times> manual_row list) list
     \<Rightarrow> error + (string \<times> match_record list) list" where
  "main new_transformer a videos = main_videos new_transformer a videos []"

text \<open>
  \<open>main\<close> is the program up to the dictionary \<open>results\<close>. The last statement of the
  source, \<^verbatim>\<open>json.dump(results, fp, indent=2)\<close>, follows it. Every candidate of a match
  record carries its \<^verbatim>\<open>timestamp_begin\<close>, a pandas \<^verbatim>\<open>Timestamp\<close>, which the encoder does
  not serialise: the dump raises \<^verbatim>\<open>TypeError\<close> when some match record has a candidate, and
  writes the dictionary otherwise.
\<close>

definition json_dump ::
  "(string \<times> match_record list) list \<Rightarrow> error + (string \<times> match_record list) list" where
  "json_dump results =
     (if list_ex (\<lambda>entry. list_ex (\<lambda>m. snd m \<noteq> []) (snd entry)) results
      then Inl TypeError else Inr results)"

definition main_with_output ::
  "transformer_constructor \<Rightarrow> args \<Rightarrow> (string \<times> 'f video_data \<times> manual_row list) list
     \<Rightarrow> error + (string \<times> match_record list) list" where
  "main_with_output new_transformer a videos =
     (case main new_transformer a videos of
        Inl e \<Rightarrow> Inl e
      | Inr results \<Rightarrow> json_dump results)"

subsection \<open>A concrete run\<close>

text \<open>
  One cut video that starts at frame 1 of its original, recorded at 15 frames per second
  from time 0, with one manual annotation at frame 14 of the cut video and position
  \<open>(100, 200)\<close>: the waggle is expected at second 1, the tolerance being half a second.
  Times are in microseconds. Two detections begin at second 1,
  both labelled as tagged waggles: \<open>det_a\<close> at \<open>(100, 200)\<close> and \<open>det_b\<close> at
  \<open>(200, 4508)\<close>, which is \<open>unrotate (100, 200)\<close>. Both marker tables hold the same
  three markers from time 0 on, so that the fitted map is the identity.
\<close>

definition det_a :: candidate where
  "det_a = \<lparr>waggle_id = ''a'', timestamp_begin = 1000000, roi_center = (100, 200)\<rparr>"

definition det_b :: candidate where
  "det_b = \<lparr>waggle_id = ''b'', timestamp_begin = 1000000, roi_center = (200, 4508)\<rparr>"

definition run_labels :: "label_record list" where
  "run_labels =
     [\<lparr>csv_waggle_id = ''a'', category_label = Some ''tagged'',
        corrected_category_label = None, dance_type = Some ''waggle'',
        corrected_dance_type = None\<rparr>,
      \<lparr>csv_waggle_id = ''b'', category_label = Some ''tagged'',
        corrected_category_label = None, dance_type = Some ''waggle'',
        corrected_dance_type = None\<rparr>]"

text \<open>A label table with two records for the identifier of \<open>det_a\<close>.\<close>

definition duplicate_labels :: "label_record list" where
  "duplicate_labels =
     [\<lparr>csv_waggle_id = ''a'', category_label = Some ''tagged'',
        corrected_category_label = None, dance_type = Some ''waggle'',
        corrected_dance_type = None\<rparr>,
      \<lparr>csv_waggle_id = ''b'', category_label = Some ''tagged'',
        corrected_category_label = None, dance_type = Some ''waggle'',
        corrected_dance_type = None\<rparr>,
      \<lparr>csv_waggle_id = ''a'', category_label = Some ''untagged'',
        corrected_category_label = None, dance_type = Some ''waggle'',
        corrected_dance_type = None\<rparr>]"

definition three_markers :: "marker_row list" where
  "three_markers =
     [\<lparr>row_timestamp = 0, row_x = 0, row_y = 0\<rparr>,
      \<lparr>row_timestamp = 0, row_x = 1000, row_y = 0\<rparr>,
      \<lparr>row_timestamp = 0, row_x = 0, row_y = 1000\<rparr>]"

definition two_markers :: "marker_row list" where
  "two_markers =
     [\<lparr>row_timestamp = 0, row_x = 0, row_y = 0\<rparr>,
      \<lparr>row_timestamp = 0, row_x = 1000, row_y = 0\<rparr>]"

definition late_markers :: "marker_row list" where
  "late_markers =
     [\<lparr>row_timestamp = 2000000, row_x = 0, row_y = 0\<rparr>,
      \<lparr>row_timestamp = 2000000, row_x = 1000, row_y = 0\<rparr>,
      \<lparr>row_timestamp = 2000000, row_x = 0, row_y = 1000\<rparr>]"

definition run_row :: manual_row where
  "run_row = \<lparr>waggle_index = 0, waggle_start_frames = 14,
              waggle_start_positions_x = 100, waggle_start_positions_y = 200\<rparr>"

definition run_video :: "nat video_data" where
  "run_video =
     \<lparr>original_video = Some [10, 11, 12], cut_video = Some [11, 12],
      all_candidates = [det_a, det_b], video_timestamp = 0, video_fps = 15,
      csv_df = run_labels, df_markers_wdd = three_markers, df_markers_hd = three_markers\<rparr>"

definition run_args :: args where
  "run_args = \<lparr>time_tolerance = 500000, coordinate_tolerance = 100,
               fix_padding_flag = False, undo_rotation = False\<rparr>"

text \<open>
  A detection at second 100, outside the window of the annotation, and a label table
  with two records for its identifier.
\<close>

definition det_far :: candidate where
  "det_far = \<lparr>waggle_id = ''c'', timestamp_begin = 100000000, roi_center = (100, 200)\<rparr>"

definition far_duplicate_labels :: "label_record list" where
  "far_duplicate_labels =
     [\<lparr>csv_waggle_id = ''c'', category_label = Some ''tagged'',
        corrected_category_label = None, dance_type = Some ''waggle'',
        corrected_dance_type = None\<rparr>,
      \<lparr>csv_waggle_id = ''c'', category_label = Some ''tagged'',
        corrected_category_label = None, dance_type = Some ''waggle'',
        corrected_dance_type = None\<rparr>]"


text \<open>The least-squares fit between two equal marker sets: the identity.\<close>

definition identity_fit :: "point list \<Rightarrow> point list \<Rightarrow> point \<Rightarrow> point" where
  "identity_fit src dst p = p"

section \<open>Properties\<close>

subsection \<open>The timestamp normaliser\<close>

lemma length_split_on: "length (split_on sep s) = count_list s sep + 1"
  by (induction s) (auto split: list.splits)

lemma split_on_sections_free: "x \<in> set (split_on sep s) \<Longrightarrow> sep \<notin> set x"
  by (induction s arbitrary: x) (auto split: list.splits if_splits)

lemma count_list_absent: "c \<notin> set xs \<Longrightarrow> count_list xs c = 0"
  by (induction xs) auto

lemma truncate_at_most_one_section:
  "count_list (truncate_higher_precision_timestamp s) CHR ''.'' \<le> 1"
proof (cases "count_list s CHR ''.'' \<ge> 2")
  case True
  let ?ss = "split_on CHR ''.'' s"
  have len: "length ?ss \<ge> 3"
    using True by (simp add: length_split_on)
  have l0: "0 < length ?ss" and l1: "1 < length ?ss"
    using len by linarith+
  have "CHR ''.'' \<notin> set (?ss ! 0)" "CHR ''.'' \<notin> set (?ss ! 1)"
    using nth_mem[OF l0] nth_mem[OF l1] split_on_sections_free by blast+
  then have "count_list (?ss ! 0) CHR ''.'' = 0" "count_list (?ss ! 1) CHR ''.'' = 0"
    by (simp_all add: count_list_absent)
  then show ?thesis
    using True by (simp add: truncate_higher_precision_timestamp_def Let_def)
next
  case False
  then show ?thesis
    by (simp add: truncate_higher_precision_timestamp_def Let_def)
qed

lemma truncate_unchanged:
  "count_list s CHR ''.'' \<le> 1 \<Longrightarrow> truncate_higher_precision_timestamp s = s"
  by (simp add: truncate_higher_precision_timestamp_def Let_def)

text \<open>
  Claim C10. Truncating a timestamp string twice gives what truncating it once gives; the
  result has at most one \<open>.\<close>, that is at most one section of fractional seconds; and a
  string with no \<open>.\<close> or one \<open>.\<close> is returned as it is.
\<close>

theorem truncate_idempotent:
  "truncate_higher_precision_timestamp (truncate_higher_precision_timestamp s)
     = truncate_higher_precision_timestamp s
   \<and> count_list (truncate_higher_precision_timestamp s) CHR ''.'' \<le> 1
   \<and> (count_list s CHR ''.'' \<le> 1 \<longrightarrow> truncate_higher_precision_timestamp s = s)"
  using truncate_at_most_one_section[of s]
        truncate_unchanged[of "truncate_higher_precision_timestamp s"]
        truncate_unchanged[of s]
  by blast

theorem truncate_idempotent_witness:
  "count_list ''20240904T122936.14581Z'' CHR ''.'' \<le> 1
   \<and> truncate_higher_precision_timestamp ''20240904T122936.14581Z'' = ''20240904T122936.14581Z''
   \<and> truncate_higher_precision_timestamp ''20240904T122936.14581.115Z''
       = ''20240904T122936.14581Z''"
proof -
  have c: "count_list ''20240904T122936.14581Z'' CHR ''.'' \<le> 1"
    by simp
  have t: "truncate_higher_precision_timestamp ''20240904T122936.14581.115Z''
             = ''20240904T122936.14581Z''"
    by (simp add: truncate_higher_precision_timestamp_def Let_def)
  show ?thesis
    using truncate_idempotent[of "''20240904T122936.14581Z''"] c t by blast
qed

subsection \<open>Rotation\<close>

text \<open>
  Claim C8. Un-rotating twice is not the identity: some point is moved by
  \<open>unrotate \<circ> unrotate\<close>. One un-rotation is undone by the forward rotation
  \<open>(x, y) \<mapsto> (FRAME_HEIGHT - y, x)\<close>, at every point.
\<close>

theorem unrotate_not_involution_forward_inverse:
  "(\<exists>p. unrotate (unrotate p) \<noteq> p)
   \<and> (\<forall>x y. spec_forward_rotation (unrotate (x, y)) = (x, y))"
proof
  have "unrotate (unrotate (0, 0)) \<noteq> (0, 0)"
    by (simp add: HD_CAM_RESOLUTION_def)
  then show "\<exists>p. unrotate (unrotate p) \<noteq> p" by blast
next
  show "\<forall>x y. spec_forward_rotation (unrotate (x, y)) = (x, y)"
    by simp
qed

lemma unrotate_twice: "unrotate (unrotate (x, y)) = (4608 - x, 4608 - y)"
  by (simp add: HD_CAM_RESOLUTION_def)

subsection \<open>Adjacency\<close>

text \<open>
  Claim C3. Two points are adjacent exactly when they are within the tolerance on each
  axis separately. Points that differ by exactly the tolerance on both axes are adjacent;
  points that differ by the tolerance plus one on the first axis (and by nothing on the
  second) are not.
\<close>

theorem is_adjacent_chebyshev:
  "(is_adjacent (x1, y1) (x2, y2) tol \<longleftrightarrow> \<bar>x1 - x2\<bar> \<le> tol \<and> \<bar>y1 - y2\<bar> \<le> tol)
   \<and> (\<bar>a1 - a2\<bar> = tol \<and> \<bar>b1 - b2\<bar> = tol \<longrightarrow> is_adjacent (a1, b1) (a2, b2) tol)
   \<and> (\<bar>c1 - c2\<bar> = tol + 1 \<longrightarrow> \<not> is_adjacent (c1, d) (c2, d) tol)"
  by simp

theorem is_adjacent_chebyshev_witness:
  "\<bar>(600::int) - 500\<bar> = 100 \<and> \<bar>(400::int) - 500\<bar> = 100
   \<and> is_adjacent (600, 400) (500, 500) 100
   \<and> \<bar>(601::int) - 500\<bar> = 100 + 1
   \<and> \<not> is_adjacent (601, 500) (500, 500) 100"
  using is_adjacent_chebyshev[of 600 400 500 500 100 600 500 400 500 601 500 500]
  by simp

subsection \<open>Floats and the temporal filter\<close>

lemma round_half_even_near: "\<bar>of_int (round_half_even q) - q\<bar> \<le> 1 / 2"
proof -
  have lo: "of_int \<lfloor>q\<rfloor> \<le> q" by simp
  have hi: "q < of_int \<lfloor>q\<rfloor> + 1" by linarith
  show ?thesis
    using lo hi by (auto simp: round_half_even_def Let_def)
qed

lemma pow2_powi: "pow2 e = 2 powi e"
  by (simp add: pow2_def power_int_def field_simps)

lemma pow2_pos: "0 < pow2 e"
  by (simp add: pow2_def)

lemma pow2_diff: "pow2 (a - b) = pow2 a / pow2 b"
  by (simp add: pow2_powi power_int_diff)

lemma pow2_nat: "0 \<le> e \<Longrightarrow> pow2 e = 2 ^ nat e"
  by (simp add: pow2_def)

lemma binary_exponent_le:
  assumes "0 < a"
  shows "pow2 (binary_exponent a) \<le> a"
proof -
  obtain p d where pd: "quotient_of a = (p, d)" by (cases "quotient_of a")
  have d: "0 < d" using pd by (rule quotient_of_denom_pos)
  have a: "a = of_int p / of_int d" using pd by (rule quotient_of_div)
  have p: "0 < p" using assms d a by (simp add: zero_less_divide_iff)
  let ?k = "bitlen p - bitlen d"
  have bp: "2 ^ nat (bitlen p - 1) \<le> p" using bitlen_bounds[OF p] by simp
  have bd: "d < 2 ^ nat (bitlen d)" using bitlen_bounds[OF d] by simp
  have p1: "1 \<le> bitlen p" using p by (simp add: bitlen_alt_def)
  have d1: "0 \<le> bitlen d" by (rule bitlen_nonneg)
  have "pow2 (?k - 1) = pow2 (bitlen p - 1) / pow2 (bitlen d)"
    using pow2_diff[of "bitlen p - 1" "bitlen d"] by (simp add: algebra_simps)
  also have "\<dots> = 2 ^ nat (bitlen p - 1) / 2 ^ nat (bitlen d)"
    using p1 d1 by (simp add: pow2_nat)
  also have "\<dots> \<le> of_int p / of_int d"
  proof (rule frac_le)
    show "(0::rat) \<le> of_int p" using p by simp
    have "(of_int (2 ^ nat (bitlen p - 1)) :: rat) \<le> of_int p"
      using bp by (simp only: of_int_le_iff)
    then show "(2::rat) ^ nat (bitlen p - 1) \<le> of_int p" by simp
    show "(0::rat) < of_int d" using d by simp
    have "(of_int d :: rat) < of_int (2 ^ nat (bitlen d))"
      using bd by (simp only: of_int_less_iff)
    then show "(of_int d :: rat) \<le> 2 ^ nat (bitlen d)" by simp
  qed
  finally have low: "pow2 (?k - 1) \<le> a" using a by simp
  show ?thesis
    using low pd by (simp add: binary_exponent_def Let_def)
qed

lemma round_to_double_near:
  "\<bar>round_to_double q - q\<bar> \<le> \<bar>q\<bar> / 2 ^ 53 + pow2 (- 1075)"
proof (cases "q = 0")
  case True
  then show ?thesis using pow2_pos[of "- 1075"] by (simp add: round_to_double_def)
next
  case False
  define a where "a = \<bar>q\<bar>"
  define e where "e = max (binary_exponent a - 52) (- 1074)"
  define m where "m = round_half_even (a / pow2 e)"
  have a0: "0 < a" using False by (simp add: a_def)
  have pe: "0 < pow2 e" by (rule pow2_pos)
  have r: "round_to_double q = sgn q * of_int m * pow2 e"
    using False by (simp add: round_to_double_def Let_def a_def e_def m_def)
  have q: "q = sgn q * a" by (simp add: a_def sgn_mult_abs)
  have "round_to_double q - q = sgn q * (of_int m * pow2 e - a)"
    using r q by (metis mult.assoc right_diff_distrib)
  then have "\<bar>round_to_double q - q\<bar> = \<bar>of_int m * pow2 e - a\<bar>"
    using False by (simp add: abs_mult abs_sgn_eq)
  also have "\<dots> = \<bar>of_int m - a / pow2 e\<bar> * pow2 e"
  proof -
    have "of_int m * pow2 e - a = (of_int m - a / pow2 e) * pow2 e"
      using pe by (simp add: field_simps)
    then show ?thesis
      using pe by (simp add: abs_mult)
  qed
  also have "\<dots> \<le> (1 / 2) * pow2 e"
    using round_half_even_near[of "a / pow2 e"] pe
    by (intro mult_right_mono) (simp_all add: m_def)
  finally have main: "\<bar>round_to_double q - q\<bar> \<le> pow2 e / 2" by simp
  show ?thesis
  proof (cases "binary_exponent a - 52 \<ge> - 1074")
    case True
    then have "e = binary_exponent a - 52" by (simp add: e_def)
    then have "pow2 e = pow2 (binary_exponent a) / pow2 52" by (simp add: pow2_diff)
    also have "\<dots> \<le> a / pow2 52"
      using binary_exponent_le[OF a0] pow2_pos[of 52] by (simp add: divide_right_mono)
    finally have "pow2 e / 2 \<le> a / 2 ^ 53" by (simp add: pow2_def)
    then show ?thesis using main pow2_pos[of "- 1075"] by (simp add: a_def)
  next
    case False
    then have "e = - 1074" by (simp add: e_def)
    then have "pow2 e / 2 = pow2 (- 1075)" by (simp add: pow2_def)
    then show ?thesis using main by (simp add: a_def)
  qed
qed

lemma truncate_fraction: "\<bar>x - of_int (truncate_toward_zero x)\<bar> \<le> 1"
proof (cases "0 \<le> x")
  case True
  have "of_int \<lfloor>x\<rfloor> \<le> x" "x < of_int \<lfloor>x\<rfloor> + 1" by linarith+
  then show ?thesis using True by (simp add: truncate_toward_zero_def abs_le_iff)
next
  case False
  have "of_int \<lfloor>- x\<rfloor> \<le> - x" "- x < of_int \<lfloor>- x\<rfloor> + 1" by linarith+
  then have "\<bar>x + of_int \<lfloor>- x\<rfloor>\<bar> \<le> 1" by linarith
  then show ?thesis using False by (simp add: truncate_toward_zero_def)
qed

lemma microseconds_of_seconds_near:
  "\<bar>of_int (microseconds_of_seconds x) - 1000000 * x\<bar>
     \<le> 1 / 2 + 1000000 / 2 ^ 53 + pow2 (- 1075)"
proof -
  define ip where "ip = truncate_toward_zero x"
  define fp where "fp = x - of_int ip"
  have x: "x = of_int ip + fp" by (simp add: fp_def)
  have p: "0 < pow2 (- 1075)" by (rule pow2_pos)
  show ?thesis
  proof (cases "fp = 0")
    case True
    then have "microseconds_of_seconds x = ip * 1000000"
      by (simp add: microseconds_of_seconds_def Let_def ip_def fp_def)
    moreover have "x = of_int ip" using True x by simp
    ultimately show ?thesis using p by simp
  next
    case False
    define D where "D = round_to_double (1000000 * fp)"
    have us: "microseconds_of_seconds x = round_half_even (of_int (ip * 1000000) + D)"
      using False by (simp add: microseconds_of_seconds_def Let_def ip_def fp_def D_def)
    have f1: "\<bar>fp\<bar> \<le> 1" using truncate_fraction[of x] by (simp add: fp_def ip_def)
    have "\<bar>D - 1000000 * fp\<bar> \<le> \<bar>1000000 * fp\<bar> / 2 ^ 53 + pow2 (- 1075)"
      unfolding D_def by (rule round_to_double_near)
    also have "\<dots> \<le> 1000000 / 2 ^ 53 + pow2 (- 1075)"
      using f1 by (simp add: abs_mult divide_right_mono)
    finally have d: "\<bar>D - 1000000 * fp\<bar> \<le> 1000000 / 2 ^ 53 + pow2 (- 1075)" .
    have r: "\<bar>of_int (microseconds_of_seconds x) - (of_int (ip * 1000000) + D)\<bar> \<le> 1 / 2"
      unfolding us by (rule round_half_even_near)
    have "of_int (microseconds_of_seconds x) - 1000000 * x
            = (of_int (microseconds_of_seconds x) - (of_int (ip * 1000000) + D))
              + (D - 1000000 * fp)"
      using x by (simp add: algebra_simps)
    then have "\<bar>of_int (microseconds_of_seconds x) - 1000000 * x\<bar>
            \<le> \<bar>of_int (microseconds_of_seconds x) - (of_int (ip * 1000000) + D)\<bar>
              + \<bar>D - 1000000 * fp\<bar>"
      by (simp only: abs_triangle_ineq)
    then show ?thesis using r d by linarith
  qed
qed

lemma combine_bounds_c:
  fixes A B C p Qc c :: rat
  assumes "A \<le> B + C"
    and "B \<le> 1 / 2 + c + p"
    and "C \<le> Qc + 1000000 * p"
    and "1000001 * p \<le> c"
  shows "A \<le> 1 / 2 + (Qc + 2 * c)"
  using assms by linarith

lemma combine_bounds:
  fixes A B C p Q :: rat
  assumes "A \<le> B + C"
    and "B \<le> 1 / 2 + 1000000 / 9007199254740992 + p"
    and "C \<le> Q * 1000000 / 9007199254740992 + 1000000 * p"
    and "1000001 * p \<le> 1000000 / 9007199254740992"
  shows "A \<le> 1 / 2 + (Q + 2) * 1000000 / 9007199254740992"
proof -
  have "1 / 2 + (Q + 2) * 1000000 / 9007199254740992
          = 1 / 2 + (Q * 1000000 / 9007199254740992 + 2 * (1000000 / 9007199254740992))"
    by (simp add: field_simps)
  then show ?thesis
    using combine_bounds_c[OF assms] by simp
qed

lemma tiny_pow2: "1000001 * pow2 (- 1075) \<le> 1000000 / 2 ^ 53"
  by (simp add: pow2_def)

lemma elapsed_microseconds_near:
  "\<bar>of_int (elapsed_microseconds n r) - 1000000 * (of_int n / of_int r :: rat)\<bar>
     \<le> 1 / 2 + (\<bar>of_int n / of_int r\<bar> + 2) * 1000000 / 2 ^ 53"
proof -
  define q :: rat where "q = of_int n / of_int r"
  define x where "x = round_to_double q"
  have a: "\<bar>of_int (microseconds_of_seconds x) - 1000000 * x\<bar>
             \<le> 1 / 2 + 1000000 / 2 ^ 53 + pow2 (- 1075)"
    by (rule microseconds_of_seconds_near)
  have "\<bar>x - q\<bar> \<le> \<bar>q\<bar> / 2 ^ 53 + pow2 (- 1075)"
    unfolding x_def by (rule round_to_double_near)
  then have b: "\<bar>1000000 * x - 1000000 * q\<bar>
                  \<le> \<bar>q\<bar> * 1000000 / 2 ^ 53 + 1000000 * pow2 (- 1075)"
    by (simp add: abs_le_iff algebra_simps)
  have "of_int (microseconds_of_seconds x) - 1000000 * q
          = (of_int (microseconds_of_seconds x) - 1000000 * x) + (1000000 * x - 1000000 * q)"
    by simp
  then have "\<bar>of_int (microseconds_of_seconds x) - 1000000 * q\<bar>
          \<le> \<bar>of_int (microseconds_of_seconds x) - 1000000 * x\<bar>
            + \<bar>1000000 * x - 1000000 * q\<bar>"
    by (simp only: abs_triangle_ineq)
  then have "\<bar>of_int (microseconds_of_seconds x) - 1000000 * q\<bar>
          \<le> 1 / 2 + (\<bar>q\<bar> + 2) * 1000000 / 9007199254740992"
    using a b tiny_pow2 by (intro combine_bounds[where p = "pow2 (- 1075)"]) simp_all
  then have "\<bar>of_int (microseconds_of_seconds x) - 1000000 * q\<bar>
          \<le> 1 / 2 + (\<bar>q\<bar> + 2) * 1000000 / 2 ^ 53"
    by simp
  then show ?thesis
    by (simp only: elapsed_microseconds_def x_def q_def)
qed

lemma filtered_by_timestamp_cases:
  assumes "r \<noteq> 0"
  shows "filtered_by_timestamp cands T0 d n r = Inl OverflowError
     \<or> filtered_by_timestamp cands T0 d n r
         = Inr (filter (\<lambda>c. of_int (T0 + elapsed_microseconds n r - d) \<le> timestamp_begin c
                           \<and> timestamp_begin c \<le> of_int (T0 + elapsed_microseconds n r + d))
                  cands)"
  using assms
  by (simp add: filtered_by_timestamp_def true_divide_def timedelta_seconds_def
        datetime_add_def elapsed_microseconds_def Let_def)

lemma round_to_double_finite:
  assumes "\<bar>q\<bar> \<le> 10 ^ 13"
  shows "\<bar>round_to_double q\<bar> < pow2 1024"
proof -
  have "\<bar>round_to_double q - q\<bar> \<le> \<bar>q\<bar> / 2 ^ 53 + pow2 (- 1075)"
    by (rule round_to_double_near)
  moreover have "\<bar>q\<bar> / 2 ^ 53 \<le> \<bar>q\<bar>"
    by (simp add: divide_le_eq)
  moreover have "pow2 (- 1075) \<le> 1"
    by (simp add: pow2_def)
  ultimately have "\<bar>round_to_double q\<bar> \<le> 2 * 10 ^ 13 + 1"
    using assms by linarith
  moreover have "(2 * 10 ^ 13 + 1 :: rat) < pow2 1024"
    by (simp add: pow2_def)
  ultimately show ?thesis by linarith
qed

lemma elapsed_microseconds_days:
  assumes "\<bar>of_int n / of_int r :: rat\<bar> \<le> 10 ^ 13"
  shows "- 999999999 \<le> elapsed_microseconds n r div 86400000000
       \<and> elapsed_microseconds n r div 86400000000 \<le> 999999999"
proof -
  define q :: rat where "q = of_int n / of_int r"
  define e where "e = elapsed_microseconds n r"
  have q: "\<bar>q\<bar> \<le> 10000000000000" using assms by (simp add: q_def)
  have "\<bar>of_int e - 1000000 * q\<bar> \<le> 1 / 2 + (\<bar>q\<bar> + 2) * 1000000 / 2 ^ 53"
    unfolding e_def q_def by (rule elapsed_microseconds_near)
  then have n: "\<bar>of_int e - 1000000 * q\<bar> \<le> 1 / 2 + (\<bar>q\<bar> + 2) * 1000000 / 2 ^ 53" .
  have "(\<bar>q\<bar> + 2) * 1000000 / 2 ^ 53 \<le> \<bar>q\<bar> + 2"
    by (simp add: divide_le_eq)
  then have "\<bar>(of_int e :: rat)\<bar> \<le> 20000000000000000000"
    using n q by linarith
  then have "\<bar>e\<bar> \<le> 20000000000000000000"
    by (metis of_int_abs of_int_le_iff of_int_numeral)
  then have lo: "- 20000000000000000000 \<le> e" and hi: "e \<le> 20000000000000000000"
    by linarith+
  have "e div 86400000000 \<le> 20000000000000000000 div 86400000000"
    using hi by (rule zdiv_mono1) simp
  moreover have "(- 20000000000000000000) div 86400000000 \<le> e div 86400000000"
    using lo by (rule zdiv_mono1) simp
  ultimately show ?thesis
    by (simp add: e_def)
qed

lemma filtered_by_timestamp_in_range:
  assumes "r \<noteq> 0"
    and "\<bar>of_int n / of_int r :: rat\<bar> \<le> 10 ^ 13"
    and "in_datetime_range (T0 + elapsed_microseconds n r)"
    and "in_datetime_range (T0 + elapsed_microseconds n r - d)"
    and "in_datetime_range (T0 + elapsed_microseconds n r + d)"
  shows "filtered_by_timestamp cands T0 d n r
         = Inr (filter (\<lambda>c. of_int (T0 + elapsed_microseconds n r - d) \<le> timestamp_begin c
                           \<and> timestamp_begin c \<le> of_int (T0 + elapsed_microseconds n r + d))
                  cands)"
proof -
  have x: "\<not> pow2 1024 \<le> \<bar>round_to_double (of_int n / of_int r)\<bar>"
    using round_to_double_finite[OF assms(2)] by simp
  have d: "- 999999999 \<le> microseconds_of_seconds (round_to_double (of_int n / of_int r))
                             div 86400000000"
    "microseconds_of_seconds (round_to_double (of_int n / of_int r)) div 86400000000
        \<le> 999999999"
    using elapsed_microseconds_days[OF assms(2)] by (simp_all add: elapsed_microseconds_def)
  show ?thesis
    using assms(1,3,4,5) x d
    by (simp add: filtered_by_timestamp_def true_divide_def timedelta_seconds_def
          datetime_add_def elapsed_microseconds_def Let_def)
qed

text \<open>
  Claim C1, as amended. The elapsed time is the \<^verbatim>\<open>timedelta\<close> built from the float quotient
  \<open>(o + f) / r\<close>: \<open>e\<close> whole microseconds. For a frame rate other than 0 the filter either
  raises \<^verbatim>\<open>OverflowError\<close> or returns exactly the candidates whose begin timestamp \<open>t\<close>
  satisfies \<open>T0 + e - d \<le> t \<le> T0 + e + d\<close>, both bounds inclusive. \<open>e\<close> differs from the
  exact \<open>(o + f) / r\<close> by at most \<open>1/2 + (|(o + f) / r| + 2) * 10^6 / 2^53\<close> microseconds,
  \<open>(o + f) / r\<close> in seconds. Nothing overflows when \<open>(o + f) / r\<close> is at most \<open>10^13\<close> seconds
  in magnitude and the expected time and both bounds lie in the years 1 to 9999.
\<close>

theorem filtered_by_timestamp_window:
  "r \<noteq> 0 \<longrightarrow>
     (filtered_by_timestamp cands T0 d (off + f) r = Inl OverflowError
      \<or> filtered_by_timestamp cands T0 d (off + f) r
          = Inr (filter (\<lambda>c. of_int (T0 + elapsed_microseconds (off + f) r - d)
                                \<le> timestamp_begin c
                            \<and> timestamp_begin c
                                \<le> of_int (T0 + elapsed_microseconds (off + f) r + d))
                   cands))
     \<and> \<bar>of_int (elapsed_microseconds (off + f) r)
          - 1000000 * (of_int (off + f) / of_int r :: rat)\<bar>
         \<le> 1 / 2 + (\<bar>of_int (off + f) / of_int r\<bar> + 2) * 1000000 / 2 ^ 53
     \<and> (\<bar>of_int (off + f) / of_int r :: rat\<bar> \<le> 10 ^ 13
          \<and> in_datetime_range (T0 + elapsed_microseconds (off + f) r)
          \<and> in_datetime_range (T0 + elapsed_microseconds (off + f) r - d)
          \<and> in_datetime_range (T0 + elapsed_microseconds (off + f) r + d) \<longrightarrow>
          filtered_by_timestamp cands T0 d (off + f) r
          = Inr (filter (\<lambda>c. of_int (T0 + elapsed_microseconds (off + f) r - d)
                                \<le> timestamp_begin c
                            \<and> timestamp_begin c
                                \<le> of_int (T0 + elapsed_microseconds (off + f) r + d))
                   cands))"
  using filtered_by_timestamp_cases[of r cands T0 d "off + f"]
        elapsed_microseconds_near[of "off + f" r]
        filtered_by_timestamp_in_range[of r "off + f" T0 d cands]
  by blast

lemma elapsed_150_15: "elapsed_microseconds 150 15 = 10000000"
  by code_simp

theorem filtered_by_timestamp_window_witness:
  "(15 :: int) \<noteq> 0
   \<and> \<bar>of_int (50 + 100) / of_int 15 :: rat\<bar> \<le> 10 ^ 13
   \<and> in_datetime_range (1000000 + elapsed_microseconds (50 + 100) 15)
   \<and> in_datetime_range (1000000 + elapsed_microseconds (50 + 100) 15 - 500000)
   \<and> in_datetime_range (1000000 + elapsed_microseconds (50 + 100) 15 + 500000)
   \<and> filtered_by_timestamp
        [\<lparr>waggle_id = ''a'', timestamp_begin = 10500000, roi_center = (0, 0)\<rparr>,
         \<lparr>waggle_id = ''b'', timestamp_begin = 11500000, roi_center = (0, 0)\<rparr>,
         \<lparr>waggle_id = ''c'', timestamp_begin = 11500001, roi_center = (0, 0)\<rparr>,
         \<lparr>waggle_id = ''d'', timestamp_begin = 10499999, roi_center = (0, 0)\<rparr>]
        1000000 500000 (50 + 100) 15
       = Inr [\<lparr>waggle_id = ''a'', timestamp_begin = 10500000, roi_center = (0, 0)\<rparr>,
              \<lparr>waggle_id = ''b'', timestamp_begin = 11500000, roi_center = (0, 0)\<rparr>]"
proof -
  let ?cs = "[\<lparr>waggle_id = ''a'', timestamp_begin = 10500000, roi_center = (0, 0)\<rparr>,
         \<lparr>waggle_id = ''b'', timestamp_begin = 11500000, roi_center = (0, 0)\<rparr>,
         \<lparr>waggle_id = ''c'', timestamp_begin = 11500001, roi_center = (0, 0)\<rparr>,
         \<lparr>waggle_id = ''d'', timestamp_begin = 10499999, roi_center = (0, 0)\<rparr>]"
  let ?e = "elapsed_microseconds (50 + 100) 15"
  have h1: "(15 :: int) \<noteq> 0" by simp
  have h2: "\<bar>of_int (50 + 100) / of_int 15 :: rat\<bar> \<le> 10 ^ 13" by simp
  have h3: "in_datetime_range (1000000 + ?e)"
    by (simp add: elapsed_150_15 in_datetime_range_def MAX_DATETIME_def)
  have h4: "in_datetime_range (1000000 + ?e - 500000)"
    by (simp add: elapsed_150_15 in_datetime_range_def MAX_DATETIME_def)
  have h5: "in_datetime_range (1000000 + ?e + 500000)"
    by (simp add: elapsed_150_15 in_datetime_range_def MAX_DATETIME_def)
  have "filtered_by_timestamp ?cs 1000000 500000 (50 + 100) 15
          = Inr (filter (\<lambda>c. of_int (1000000 + ?e - 500000) \<le> timestamp_begin c
                            \<and> timestamp_begin c \<le> of_int (1000000 + ?e + 500000)) ?cs)"
    using filtered_by_timestamp_window[of 15 ?cs 1000000 500000 50 100] h1 h2 h3 h4 h5
    by blast
  also have "filter (\<lambda>c. of_int (1000000 + ?e - 500000) \<le> timestamp_begin c
                            \<and> timestamp_begin c \<le> of_int (1000000 + ?e + 500000)) ?cs
          = [\<lparr>waggle_id = ''a'', timestamp_begin = 10500000, roi_center = (0, 0)\<rparr>,
             \<lparr>waggle_id = ''b'', timestamp_begin = 11500000, roi_center = (0, 0)\<rparr>]"
    by (simp add: elapsed_150_15)
  finally show ?thesis
    using h1 h2 h3 h4 h5 by blast
qed

text \<open>
  The window in exact arithmetic is not the one the code uses. At 15 frames per second
  frame 1 lies \<open>1/15\<close> s after the start, which the \<^verbatim>\<open>timedelta\<close> rounds up to 66667
  microseconds. With a start at second 1 and a tolerance of half a second a candidate at
  1.566667 s is returned, although it lies after \<open>1 + 1/15 + 1/2\<close> s.
\<close>

theorem filtered_by_timestamp_spec_window_counterexample:
  "filtered_by_timestamp
     [\<lparr>waggle_id = ''a'', timestamp_begin = 1566667, roi_center = (0, 0)\<rparr>]
     1000000 500000 (0 + 1) 15
     = Inr [\<lparr>waggle_id = ''a'', timestamp_begin = 1566667, roi_center = (0, 0)\<rparr>]
   \<and> \<not> spec_time_window 1000000 0 1 15 500000 1566667"
  by code_simp

subsection \<open>The label filter\<close>








subsection \<open>Frame synchronisation\<close>

lemma scan_frames_None: "scan_frames frames target k = None \<longleftrightarrow> target \<notin> set frames"
  by (induction frames arbitrary: k) auto

lemma scan_frames_Some:
  "scan_frames frames target k = Some i \<Longrightarrow>
     k \<le> i \<and> i - k < length frames \<and> frames ! (i - k) = target
     \<and> (\<forall>j < i - k. frames ! j \<noteq> target)"
proof (induction frames arbitrary: k)
  case Nil
  then show ?case by simp
next
  case (Cons fr frames)
  show ?case
  proof (cases "fr = target")
    case True
    with Cons.prems show ?thesis by simp
  next
    case False
    with Cons.prems have s: "scan_frames frames target (k + 1) = Some i" by simp
    from Cons.IH[OF s] have ih: "k + 1 \<le> i" "i - (k + 1) < length frames"
      "frames ! (i - (k + 1)) = target" "\<forall>j < i - (k + 1). frames ! j \<noteq> target"
      by auto
    have eq: "i - k = Suc (i - (k + 1))" using ih(1) by simp
    have "\<forall>j < i - k. (fr # frames) ! j \<noteq> target"
    proof (intro allI impI)
      fix j assume "j < i - k"
      then show "(fr # frames) ! j \<noteq> target"
        using False ih(4) eq by (cases j) auto
    qed
    then show ?thesis
      using ih eq by simp
  qed
qed

text \<open>
  Claim C4. Both videos opened and the trimmed video having a first frame: if that frame
  occurs in the reference video, the synchroniser returns the smallest index at which it
  occurs; if it does not occur, the synchroniser fails with an exception and returns no
  index.
\<close>

theorem first_matching_frame_index_least:
  "trimmed = Some (target # later) \<and> reference = Some frames \<longrightarrow>
     (target \<in> set frames \<longrightarrow>
        (\<exists>i. get_first_matching_frame_index reference trimmed = Inr i
             \<and> i < length frames \<and> frames ! i = target
             \<and> (\<forall>j < i. frames ! j \<noteq> target)))
     \<and> (target \<notin> set frames \<longrightarrow>
          get_first_matching_frame_index reference trimmed
            = Inl (PyException ''Unable to find matching frame''))"
proof (intro impI)
  assume a: "trimmed = Some (target # later) \<and> reference = Some frames"
  have st: "get_starting_frame trimmed = Inr target"
    using a by (simp add: get_starting_frame_def)
  show "(target \<in> set frames \<longrightarrow>
        (\<exists>i. get_first_matching_frame_index reference trimmed = Inr i
             \<and> i < length frames \<and> frames ! i = target
             \<and> (\<forall>j < i. frames ! j \<noteq> target)))
     \<and> (target \<notin> set frames \<longrightarrow>
          get_first_matching_frame_index reference trimmed
            = Inl (PyException ''Unable to find matching frame''))"
  proof (cases "scan_frames frames target 0")
    case None
    then have "target \<notin> set frames" by (simp add: scan_frames_None)
    then show ?thesis
      using a st None by (simp add: get_first_matching_frame_index_def)
  next
    case (Some i)
    then have "target \<in> set frames"
      using scan_frames_None[of frames target 0] by auto
    moreover have "get_first_matching_frame_index reference trimmed = Inr i"
      using a st Some by (simp add: get_first_matching_frame_index_def)
    moreover have "i < length frames \<and> frames ! i = target \<and> (\<forall>j < i. frames ! j \<noteq> target)"
      using scan_frames_Some[OF Some] by simp
    ultimately show ?thesis by blast
  qed
qed

theorem first_matching_frame_index_least_witness:
  "(2 :: nat) \<in> set [1, 2, 3, 2]
   \<and> (\<exists>i. get_first_matching_frame_index (Some [1, 2, 3, 2 :: nat]) (Some [2, 5]) = Inr i
          \<and> i < length [1, 2, 3, 2 :: nat] \<and> [1, 2, 3, 2 :: nat] ! i = 2
          \<and> (\<forall>j < i. [1, 2, 3, 2 :: nat] ! j \<noteq> 2))
   \<and> get_first_matching_frame_index (Some [1, 2, 3, 2 :: nat]) (Some [2, 5]) = Inr 1
   \<and> (7 :: nat) \<notin> set [1, 2, 3, 2]
   \<and> get_first_matching_frame_index (Some [1, 2, 3, 2 :: nat]) (Some [7, 5])
       = Inl (PyException ''Unable to find matching frame'')"
proof -
  have h1: "(2 :: nat) \<in> set [1, 2, 3, 2]" by simp
  have h2: "(7 :: nat) \<notin> set [1, 2, 3, 2]" by simp
  have e: "get_first_matching_frame_index (Some [1, 2, 3, 2 :: nat]) (Some [2, 5]) = Inr 1"
    by (simp add: get_first_matching_frame_index_def get_starting_frame_def)
  show ?thesis
    using h1 h2 e
      first_matching_frame_index_least[of "Some [2, 5]" 2 "[5]" "Some [1, 2, 3, 2]" "[1, 2, 3, 2]"]
      first_matching_frame_index_least[of "Some [7, 5]" 7 "[5]" "Some [1, 2, 3, 2]" "[1, 2, 3, 2]"]
    by blast
qed

subsection \<open>The uniqueness of label records\<close>

lemma tagged_and_waggle_error: "tagged_and_waggle df = Inl e \<Longrightarrow> e = TypeError"
  by (auto simp: tagged_and_waggle_def is_tagged_def is_waggle_def
           split: sum.splits option.splits)

lemma tagged_waggle_check_duplicate:
  "c \<in> set cands \<Longrightarrow>
   2 \<le> length (filter (\<lambda>r. csv_waggle_id r = waggle_id c) csv) \<Longrightarrow>
   \<exists>e. tagged_waggle_check csv cands acc = Inl e"
proof (induction cands arbitrary: acc)
  case Nil
  then show ?case by simp
next
  case (Cons x xs)
  show ?case
  proof (cases "filter (\<lambda>r. csv_waggle_id r = waggle_id x) csv")
    case Nil
    then have "c \<noteq> x" using Cons.prems(2) by auto
    then have "c \<in> set xs" using Cons.prems(1) by simp
    then show ?thesis using Cons.IH Cons.prems(2) Nil by simp
  next
    case (Cons r rs)
    note outer = Cons
    show ?thesis
    proof (cases rs)
      case Nil
      then have one: "filter (\<lambda>r. csv_waggle_id r = waggle_id x) csv = [r]"
        using outer by simp
      then have "c \<noteq> x" using Cons.prems(2) by auto
      then have cx: "c \<in> set xs" using Cons.prems(1) by simp
      show ?thesis
      proof (cases "tagged_and_waggle r")
        case (Inl e)
        then show ?thesis using one by simp
      next
        case (Inr keep)
        then show ?thesis
          using one Cons.IH[OF cx Cons.prems(2)] by simp
      qed
    next
      case (Cons r' rs')
      then show ?thesis using outer by simp
    qed
  qed
qed

lemma tagged_waggle_check_unique:
  "list_all (\<lambda>c. length (filter (\<lambda>r. csv_waggle_id r = waggle_id c) csv) \<le> 1) cands \<Longrightarrow>
   tagged_waggle_check csv cands acc \<noteq> Inl AssertionError"
proof (induction cands arbitrary: acc)
  case Nil
  then show ?case by simp
next
  case (Cons x xs)
  then have le: "length (filter (\<lambda>r. csv_waggle_id r = waggle_id x) csv) \<le> 1"
    and rest: "list_all (\<lambda>c. length (filter (\<lambda>r. csv_waggle_id r = waggle_id c) csv) \<le> 1) xs"
    by simp_all
  show ?case
  proof (cases "filter (\<lambda>r. csv_waggle_id r = waggle_id x) csv")
    case Nil
    then show ?thesis using Cons.IH[OF rest] by simp
  next
    case (Cons r rs)
    then have one: "filter (\<lambda>r. csv_waggle_id r = waggle_id x) csv = [r]"
      using le by (cases rs) auto
    show ?thesis
    proof (cases "tagged_and_waggle r")
      case (Inl e)
      then show ?thesis using one tagged_and_waggle_error[OF Inl] by simp
    next
      case (Inr keep)
      then show ?thesis using one Cons.IH[OF rest] by simp
    qed
  qed
qed

subsection \<open>Exceptions leave the run\<close>

lemma main_rows_event_abort:
  assumes "get_first_matching_frame_index (original_video v) (cut_video v) = Inr off"
    and "filtered_by_timestamp (all_candidates v) (video_timestamp v) (time_tolerance a)
           (int off + waggle_start_frames row) (video_fps v) = Inr cands"
    and "cands \<noteq> []"
    and "tagged_waggle_check (csv_df v) cands [] = Inl e"
  shows "main_rows new_transformer a v (row # rest) results = Inl e"
  using assms by simp

lemma main_rows_abort_later:
  "(\<And>results. \<exists>e. main_rows new_transformer a v (row # rest) results = Inl e) \<Longrightarrow>
   \<exists>e. main_rows new_transformer a v (pre @ row # rest) results = Inl e"
proof (induction pre arbitrary: results)
  case Nil
  then show ?case by simp
next
  case (Cons p pre)
  show ?case
    using Cons.IH[OF Cons.prems]
    by (simp split: sum.splits)
qed

lemma main_videos_abort:
  "(name, v, rows) \<in> set videos \<Longrightarrow> main_rows new_transformer a v rows [] = Inl e \<Longrightarrow>
   \<exists>e'. main_videos new_transformer a videos results = Inl e'"
proof (induction videos arbitrary: results)
  case Nil
  then show ?case by simp
next
  case (Cons x xs)
  obtain n' v' rows' where x: "x = (n', v', rows')" by (cases x) auto
  show ?case
  proof (cases "main_rows new_transformer a v' rows' []")
    case (Inl e')
    then show ?thesis using x by simp
  next
    case (Inr ms)
    then have "(name, v, rows) \<noteq> x" using x Cons.prems(2) by auto
    then have "(name, v, rows) \<in> set xs" using Cons.prems(1) by simp
    then show ?thesis using Cons.IH Cons.prems(2) x Inr by simp
  qed
qed


lemma tagged_waggle_check_errors:
  "tagged_waggle_check csv cands acc = Inl e \<Longrightarrow> e = AssertionError \<or> e = TypeError"
proof (induction cands arbitrary: acc)
  case Nil
  then show ?case by simp
next
  case (Cons x xs)
  show ?case
  proof (cases "filter (\<lambda>r. csv_waggle_id r = waggle_id x) csv")
    case Nil
    then show ?thesis using Cons by simp
  next
    case (Cons r rs)
    note outer = Cons
    show ?thesis
    proof (cases rs)
      case Nil
      then have one: "filter (\<lambda>r. csv_waggle_id r = waggle_id x) csv = [r]"
        using outer by simp
      show ?thesis
      proof (cases "tagged_and_waggle r")
        case (Inl e')
        then show ?thesis
          using one Cons.prems tagged_and_waggle_error[OF Inl] by simp
      next
        case (Inr keep)
        then show ?thesis
          using one Cons.prems Cons.IH by simp
      qed
    next
      case (Cons r' rs')
      then show ?thesis using outer Cons.prems by simp
    qed
  qed
qed

lemma tagged_and_waggle_present:
  "category_label df \<noteq> None \<Longrightarrow> dance_type df \<noteq> None \<Longrightarrow> \<exists>b. tagged_and_waggle df = Inr b"
  by (auto simp: tagged_and_waggle_def is_tagged_def is_waggle_def)

lemma tagged_waggle_check_no_TypeError:
  "list_all (\<lambda>r. category_label r \<noteq> None \<and> dance_type r \<noteq> None) csv \<Longrightarrow>
   tagged_waggle_check csv cands acc \<noteq> Inl TypeError"
proof (induction cands arbitrary: acc)
  case Nil
  then show ?case by simp
next
  case (Cons x xs)
  show ?case
  proof (cases "filter (\<lambda>r. csv_waggle_id r = waggle_id x) csv")
    case Nil
    then show ?thesis using Cons by simp
  next
    case (Cons r rs)
    note outer = Cons
    show ?thesis
    proof (cases rs)
      case Nil
      then have one: "filter (\<lambda>r. csv_waggle_id r = waggle_id x) csv = [r]"
        using outer by simp
      then have "r \<in> set (filter (\<lambda>r. csv_waggle_id r = waggle_id x) csv)"
        by simp
      then have "r \<in> set csv"
        by simp
      then have "category_label r \<noteq> None" "dance_type r \<noteq> None"
        using Cons.prems by (auto simp: list_all_iff)
      then obtain b where "tagged_and_waggle r = Inr b"
        using tagged_and_waggle_present by blast
      then show ?thesis
        using one Cons.IH[OF Cons.prems] by simp
    next
      case (Cons r' rs')
      then show ?thesis using outer by simp
    qed
  qed
qed

text \<open>
  Claim C9, as amended. The uniqueness of label records is checked in the label loop, for
  the candidates the loop runs over: those that passed the temporal filter of an event
  whose frame synchronisation succeeded. If the label table holds two or more records
  with the identifier of such a candidate, the loop raises (the assertion, when no
  original label is missing in the table), and the run ends with an exception before
  any output is written. If the table holds at most one record for each candidate of the
  loop, the assertion never fails.
\<close>

theorem duplicate_label_records_abort:
  "(c \<in> set cands \<and> 2 \<le> length (filter (\<lambda>r. csv_waggle_id r = waggle_id c) csv) \<longrightarrow>
      (\<exists>e. tagged_waggle_check csv cands acc = Inl e)
      \<and> (list_all (\<lambda>r. category_label r \<noteq> None \<and> dance_type r \<noteq> None) csv \<longrightarrow>
           tagged_waggle_check csv cands acc = Inl AssertionError))
   \<and> (list_all (\<lambda>c. length (filter (\<lambda>r. csv_waggle_id r = waggle_id c) csv) \<le> 1) cands \<longrightarrow>
        tagged_waggle_check csv cands acc \<noteq> Inl AssertionError)
   \<and> ((name, v, pre @ row # rest) \<in> set videos
        \<and> get_first_matching_frame_index (original_video v) (cut_video v) = Inr off
        \<and> filtered_by_timestamp (all_candidates v) (video_timestamp v) (time_tolerance a)
             (int off + waggle_start_frames row) (video_fps v) = Inr cands
        \<and> c \<in> set cands
        \<and> 2 \<le> length (filter (\<lambda>r. csv_waggle_id r = waggle_id c) (csv_df v)) \<longrightarrow>
        (\<exists>e. main new_transformer a videos = Inl e
            \<and> main_with_output new_transformer a videos = Inl e))"
proof -
  have p1: "\<exists>e. tagged_waggle_check csv cands acc = Inl e"
    if "c \<in> set cands" "2 \<le> length (filter (\<lambda>r. csv_waggle_id r = waggle_id c) csv)"
    using that by (rule tagged_waggle_check_duplicate)
  have p1': "tagged_waggle_check csv cands acc = Inl AssertionError"
    if h1: "c \<in> set cands"
      and h2: "2 \<le> length (filter (\<lambda>r. csv_waggle_id r = waggle_id c) csv)"
      and h3: "list_all (\<lambda>r. category_label r \<noteq> None \<and> dance_type r \<noteq> None) csv"
  proof -
    obtain e where e: "tagged_waggle_check csv cands acc = Inl e"
      using p1[OF h1 h2] by blast
    then have "e = AssertionError \<or> e = TypeError"
      by (rule tagged_waggle_check_errors)
    moreover have "e \<noteq> TypeError"
      using e tagged_waggle_check_no_TypeError[OF h3, of cands acc] by auto
    ultimately show ?thesis using e by simp
  qed
  have p2: "tagged_waggle_check csv cands acc \<noteq> Inl AssertionError"
    if "list_all (\<lambda>c. length (filter (\<lambda>r. csv_waggle_id r = waggle_id c) csv) \<le> 1) cands"
    using that by (rule tagged_waggle_check_unique)
  have p3: "\<exists>e. main new_transformer a videos = Inl e
                \<and> main_with_output new_transformer a videos = Inl e"
    if m: "(name, v, pre @ row # rest) \<in> set videos"
      and s: "get_first_matching_frame_index (original_video v) (cut_video v) = Inr off"
      and f: "filtered_by_timestamp (all_candidates v) (video_timestamp v) (time_tolerance a)
             (int off + waggle_start_frames row) (video_fps v) = Inr cands"
      and c: "c \<in> set cands"
      and d: "2 \<le> length (filter (\<lambda>r. csv_waggle_id r = waggle_id c) (csv_df v))"
  proof -
    obtain e where e: "tagged_waggle_check (csv_df v) cands [] = Inl e"
      using tagged_waggle_check_duplicate[OF c d] by blast
    have ne: "cands \<noteq> []" using c by auto
    have "\<And>results. \<exists>e. main_rows new_transformer a v (row # rest) results = Inl e"
      using main_rows_event_abort[OF s f ne e] by blast
    then obtain e' where "main_rows new_transformer a v (pre @ row # rest) [] = Inl e'"
      using main_rows_abort_later by blast
    then obtain e'' where "main_videos new_transformer a videos [] = Inl e''"
      using main_videos_abort[OF m] by blast
    then show ?thesis
      by (simp add: main_def main_with_output_def)
  qed
  show ?thesis
    using p1 p1' p2 p3 by blast
qed


lemmas run_defs =
  run_args_def run_video_def run_row_def run_labels_def duplicate_labels_def
  three_markers_def two_markers_def late_markers_def det_a_def det_b_def identity_fit_def

theorem duplicate_label_records_abort_witness:
  "det_a \<in> set [det_a, det_b]
   \<and> 2 \<le> length (filter (\<lambda>r. csv_waggle_id r = waggle_id det_a) duplicate_labels)
   \<and> list_all (\<lambda>r. category_label r \<noteq> None \<and> dance_type r \<noteq> None) duplicate_labels
   \<and> tagged_waggle_check duplicate_labels [det_a, det_b] [] = Inl AssertionError
   \<and> list_all (\<lambda>c. length (filter (\<lambda>r. csv_waggle_id r = waggle_id c) run_labels) \<le> 1)
        [det_a, det_b]
   \<and> tagged_waggle_check run_labels [det_a, det_b] [] \<noteq> Inl AssertionError
   \<and> (''cam'', run_video\<lparr>csv_df := duplicate_labels\<rparr>, [] @ run_row # [])
        \<in> set [(''cam'', run_video\<lparr>csv_df := duplicate_labels\<rparr>, [] @ run_row # [])]
   \<and> (\<exists>e. main (CoordinateTransformer identity_fit) run_args
              [(''cam'', run_video\<lparr>csv_df := duplicate_labels\<rparr>, [] @ run_row # [])] = Inl e
          \<and> main_with_output (CoordinateTransformer identity_fit) run_args
              [(''cam'', run_video\<lparr>csv_df := duplicate_labels\<rparr>, [] @ run_row # [])] = Inl e)"
proof -
  let ?v = "run_video\<lparr>csv_df := duplicate_labels\<rparr>"
  have h1: "det_a \<in> set [det_a, det_b]" by simp
  have h2: "2 \<le> length (filter (\<lambda>r. csv_waggle_id r = waggle_id det_a) duplicate_labels)"
    by (simp add: run_defs)
  have h3: "list_all (\<lambda>r. category_label r \<noteq> None \<and> dance_type r \<noteq> None) duplicate_labels"
    by (simp add: run_defs)
  have h4: "list_all (\<lambda>c. length (filter (\<lambda>r. csv_waggle_id r = waggle_id c) run_labels) \<le> 1)
        [det_a, det_b]"
    by (simp add: run_defs)
  have h5: "(''cam'', ?v, [] @ run_row # []) \<in> set [(''cam'', ?v, [] @ run_row # [])]"
    by simp
  have h6: "get_first_matching_frame_index (original_video ?v) (cut_video ?v) = Inr 1"
    by code_simp
  have h7: "filtered_by_timestamp (all_candidates ?v) (video_timestamp ?v)
              (time_tolerance run_args) (int 1 + waggle_start_frames run_row) (video_fps ?v)
            = Inr [det_a, det_b]"
    by code_simp
  have h8: "2 \<le> length (filter (\<lambda>r. csv_waggle_id r = waggle_id det_a) (csv_df ?v))"
    using h2 by simp
  show ?thesis
    using h1 h2 h3 h4 h5 h6 h7 h8
      duplicate_label_records_abort[of det_a "[det_a, det_b]" duplicate_labels "[]"
        "''cam''" ?v "[]" run_row "[]" "[(''cam'', ?v, [] @ run_row # [])]" 1 run_args
        "CoordinateTransformer identity_fit"]
      duplicate_label_records_abort[of det_a "[det_a, det_b]" run_labels "[]"
        "''cam''" ?v "[]" run_row "[]" "[(''cam'', ?v, [] @ run_row # [])]" 1 run_args
        "CoordinateTransformer identity_fit"]
    by blast
qed


text \<open>
  Two label records for a detection are not noticed when the detection never reaches the
  label loop. \<open>det_far\<close> is a detection of the day with two records, but it begins outside
  the window of the only annotation: the run ends normally and writes its output.
\<close>

theorem duplicate_label_records_unnoticed_counterexample:
  "det_far \<in> set (all_candidates
                    (run_video\<lparr>all_candidates := [det_far], csv_df := far_duplicate_labels\<rparr>))
   \<and> 2 \<le> length (filter (\<lambda>r. csv_waggle_id r = waggle_id det_far)
                    (csv_df (run_video\<lparr>all_candidates := [det_far],
                                         csv_df := far_duplicate_labels\<rparr>)))
   \<and> main_with_output (CoordinateTransformer identity_fit) run_args
        [(''cam'', run_video\<lparr>all_candidates := [det_far], csv_df := far_duplicate_labels\<rparr>,
          [run_row])]
       = Inr [(''cam'', [])]"
  by code_simp

subsection \<open>Failures of the spatial check\<close>

lemma coordinate_check_abort:
  "c \<in> set cands \<Longrightarrow>
   is_matching_coordinates new_transformer c row markers_hd markers_wdd (coordinate_tolerance a)
     (fix_padding_flag a) False = Inl e \<Longrightarrow>
   \<exists>e'. coordinate_check new_transformer a row markers_hd markers_wdd cands = Inl e'"
  by (induction cands) (auto split: sum.splits)

lemma main_rows_spatial_abort:
  assumes "get_first_matching_frame_index (original_video v) (cut_video v) = Inr off"
    and "filtered_by_timestamp (all_candidates v) (video_timestamp v) (time_tolerance a)
           (int off + waggle_start_frames row) (video_fps v) = Inr cands"
    and "cands \<noteq> []"
    and "tagged_waggle_check (csv_df v) cands [] = Inr kept"
    and "coordinate_check new_transformer a row (df_markers_hd v) (df_markers_wdd v) kept
           = Inl e"
  shows "main_rows new_transformer a v (row # rest) results = Inl e"
  using assms by simp

lemma main_rows_sync_failure:
  "get_first_matching_frame_index (original_video v) (cut_video v) = Inl e \<Longrightarrow>
   main_rows new_transformer a v rows results = Inr results"
  by (induction rows) simp_all

text \<open>
  Claim C5. The failure of the frame synchronisation is caught: the event adds nothing
  and the run goes on. A failure of the transformer is not: here the markers of the
  first video are too few, the construction raises \<open>InsufficientMarkers\<close>, and the run
  ends with that exception although the second video alone gives a match.
\<close>

theorem transformer_failure_aborts_run:
  "main (CoordinateTransformer fit) run_args
     [(''cam1'', run_video\<lparr>df_markers_wdd := two_markers, df_markers_hd := two_markers\<rparr>,
       [run_row]),
      (''cam2'', run_video, [run_row])]
     = Inl InsufficientMarkers
   \<and> main (CoordinateTransformer identity_fit) run_args [(''cam2'', run_video, [run_row])]
       = Inr [(''cam2'', [(run_row, [det_a])])]
   \<and> main (CoordinateTransformer identity_fit) run_args
       [(''cam1'', run_video\<lparr>original_video := None\<rparr>, [run_row]),
        (''cam2'', run_video, [run_row])]
       = Inr [(''cam1'', []), (''cam2'', [(run_row, [det_a])])]"
  by code_simp

subsection \<open>Marker lookup\<close>

lemma scan_marker_timestamps_last:
  "scan_marker_timestamps ts t acc
     = (if filter (\<lambda>m. m \<le> t) ts = [] then acc else Some (last (filter (\<lambda>m. m \<le> t) ts)))"
  by (induction ts arbitrary: acc) auto

lemma sorted_last_Max:
  fixes xs :: "rat list"
  shows "sorted xs \<Longrightarrow> xs \<noteq> [] \<Longrightarrow> last xs = Max (set xs)"
proof (induction xs)
  case Nil
  then show ?case by simp
next
  case (Cons x xs)
  show ?case
  proof (cases "xs = []")
    case True
    then show ?thesis by simp
  next
    case False
    then have "last xs = Max (set xs)" using Cons by simp
    moreover have "x \<le> Max (set xs)"
      using Cons.prems False by (metis List.finite_set Max_ge last_in_set order_trans
          calculation set_ConsD sorted_simps(2))
    ultimately show ?thesis
      using False by (simp add: max_absorb2)
  qed
qed

lemma get_marker_coordinates_latest:
  "get_marker_coordinates_by_timestamp t df
     = (if list_ex (\<lambda>row. row_timestamp row \<le> t) df
        then Some (map (\<lambda>row. (row_x row, row_y row))
                     (filter (\<lambda>row. row_timestamp row
                                = Max {m \<in> row_timestamp ` set df. m \<le> t}) df))
        else None)"
proof -
  let ?ts = "sort (remdups (map row_timestamp df))"
  let ?le = "filter (\<lambda>m. m \<le> t) ?ts"
  have set_le: "set ?le = {m \<in> row_timestamp ` set df. m \<le> t}"
    by auto
  have srt: "sorted ?le"
    by (simp add: sorted_filter[where f = id, simplified])
  show ?thesis
  proof (cases "list_ex (\<lambda>row. row_timestamp row \<le> t) df")
    case True
    then have "{m \<in> row_timestamp ` set df. m \<le> t} \<noteq> {}"
      by (auto simp: list_ex_iff)
    then have ne: "?le \<noteq> []"
      using set_le by (metis empty_set)
    have "last ?le = Max {m \<in> row_timestamp ` set df. m \<le> t}"
      using sorted_last_Max[OF srt ne] set_le by simp
    then show ?thesis
      using True ne
      by (simp add: get_marker_coordinates_by_timestamp_def scan_marker_timestamps_last Let_def)
  next
    case False
    then have "?le = []"
      by (auto simp: list_ex_iff filter_empty_conv)
    then show ?thesis
      using False
      by (simp add: get_marker_coordinates_by_timestamp_def scan_marker_timestamps_last Let_def)
  qed
qed

lemma is_matching_coordinates_missing_markers:
  "get_marker_coordinates_by_timestamp (of_int \<lfloor>timestamp_begin c\<rfloor>) markers_hd = None \<Longrightarrow>
   new_transformer None
     (get_marker_coordinates_by_timestamp (of_int \<lfloor>timestamp_begin c\<rfloor>) markers_wdd)
     = Inl e \<Longrightarrow>
   is_matching_coordinates new_transformer c row markers_hd markers_wdd tol fix_padding undo = Inl e"
  by (simp add: is_matching_coordinates_def Let_def)

text \<open>
  Claim C6. The lookup gives the markers of the latest timestamp that is not after the
  detection (lemma \<open>get_marker_coordinates_latest\<close>), and \<open>None\<close> when every marker
  timestamp is later. The spatial comparison is not skipped then: the missing marker set
  goes to the transformer, whose construction raises, and the run ends with that
  exception instead of counting a filter miss.
\<close>

theorem missing_markers_abort_run:
  "get_marker_coordinates_by_timestamp (timestamp_begin det_a) late_markers = None
   \<and> is_matching_coordinates (CoordinateTransformer fit) det_a run_row late_markers
        three_markers 100 False False = Inl InsufficientMarkers
   \<and> main (CoordinateTransformer fit) run_args
        [(''cam1'', run_video\<lparr>df_markers_hd := late_markers\<rparr>, [run_row]),
         (''cam2'', run_video, [run_row])]
       = Inl InsufficientMarkers"
  by code_simp

subsection \<open>The rotation option\<close>

lemma is_matching_coordinates_unrotates_first:
  "new_transformer
     (get_marker_coordinates_by_timestamp (of_int \<lfloor>timestamp_begin c\<rfloor>) markers_hd)
     (get_marker_coordinates_by_timestamp (of_int \<lfloor>timestamp_begin c\<rfloor>) markers_wdd)
     = Inr transform \<Longrightarrow>
   is_matching_coordinates new_transformer c row markers_hd markers_wdd tol False undo
     = Inr (is_adjacent
              (transform (if undo
                          then unrotate (waggle_start_positions_x row,
                                         waggle_start_positions_y row)
                          else (waggle_start_positions_x row, waggle_start_positions_y row)))
              (roi_center c) tol)"
  by (simp add: is_matching_coordinates_def Let_def)

lemma coordinate_check_ignores_undo_rotation:
  "coordinate_check new_transformer (a\<lparr>undo_rotation := b\<rparr>) row markers_hd markers_wdd cands
     = coordinate_check new_transformer a row markers_hd markers_wdd cands"
  by (induction cands) (simp_all split: sum.splits)

lemma main_rows_ignores_undo_rotation:
  "main_rows new_transformer (a\<lparr>undo_rotation := b\<rparr>) v rows results
     = main_rows new_transformer a v rows results"
  by (induction rows arbitrary: results)
     (simp_all add: coordinate_check_ignores_undo_rotation split: sum.splits)

lemma main_ignores_undo_rotation:
  "main new_transformer (a\<lparr>undo_rotation := b\<rparr>) videos = main new_transformer a videos"
proof -
  have "main_videos new_transformer (a\<lparr>undo_rotation := b\<rparr>) videos results
          = main_videos new_transformer a videos results" for results
    by (induction videos arbitrary: results)
       (auto simp: main_rows_ignores_undo_rotation split: sum.splits)
  then show ?thesis by (simp add: main_def)
qed

text \<open>
  Claim C7. With the option \<open>undo_rotation\<close> enabled the run still compares the manual
  position \<open>(100, 200)\<close> as it is: it keeps \<open>det_a\<close> at \<open>(100, 200)\<close> and drops \<open>det_b\<close> at
  \<open>(200, 4508)\<close>, the un-rotated position. \<^verbatim>\<open>is_matching_coordinates\<close> called with the flag
  would keep \<open>det_b\<close> and drop \<open>det_a\<close>; \<^verbatim>\<open>main\<close> never passes the flag.
\<close>

theorem undo_rotation_option_ignored:
  "main (CoordinateTransformer identity_fit) (run_args\<lparr>undo_rotation := True\<rparr>)
     [(''cam'', run_video, [run_row])]
     = Inr [(''cam'', [(run_row, [det_a])])]
   \<and> is_matching_coordinates (CoordinateTransformer identity_fit) det_b run_row
        three_markers three_markers 100 False True = Inr True
   \<and> is_matching_coordinates (CoordinateTransformer identity_fit) det_a run_row
        three_markers three_markers 100 False True = Inr False"
  by code_simp


end
